theory Spec2Isabelle
  imports Main "HOL-Library.AList"
begin

section \<open>The event router of \<^verbatim>\<open>asyncapi_eventrouter/router.py\<close>\<close>

text \<open>
  The module keeps three nested registries (channel name, event name, subscription or
  publish descriptor) in Python dictionaries, validates a raw payload with a pydantic
  model and calls the registered handler. The embedding follows the module class by
  class; every method takes the object it is called on and returns its result together
  with the object after the call and the effects the call had on the outside.
\<close>

subsection \<open>Dictionaries\<close>

text \<open>
  A Python \<^verbatim>\<open>dict\<close> is an association list in insertion order. \<^verbatim>\<open>k in d\<close> is
  \<open>map_of d k \<noteq> None\<close>, \<^verbatim>\<open>d[k]\<close> is \<open>map_of d k\<close> (\<open>None\<close> where Python raises
  \<^verbatim>\<open>KeyError\<close>) and \<^verbatim>\<open>d[k] = v\<close> is \<open>AList.update k v d\<close>: the value is replaced
  in place when the key is present and appended otherwise. The keys of a dictionary are
  pairwise distinct, which \<open>dict_wf\<close> says of the list.
\<close>

type_synonym ('k, 'a) dict = "('k \<times> 'a) list"

definition dict_wf :: "('k, 'a) dict \<Rightarrow> bool" where
  "dict_wf d = distinct (map fst d)"

subsection \<open>Exceptions, handlers and effects\<close>

text \<open>
  \<open>Exception\<close> is the bare \<^verbatim>\<open>Exception()\<close> that \<^verbatim>\<open>Subscription.__init__\<close> raises,
  \<open>KeyError\<close> the failure of a dictionary subscript, and \<open>Propagated x\<close> an exception
  object \<open>x\<close> raised by a callee outside the module (the model class, the handler,
  \<^verbatim>\<open>Event.parse_raw\<close>): the module has no \<^verbatim>\<open>try\<close>, so \<open>x\<close> reaches the caller as it
  was raised.
\<close>

datatype 'x exn = Exception | KeyError string | Propagated 'x

text \<open>
  A handler is a Python function: its name, its declared parameters as
  \<^verbatim>\<open>inspect.signature\<close> lists them (each with its annotation), and what a call with one
  argument does, which is to raise or to return a value (\<open>None\<close> is Python's
  \<^verbatim>\<open>None\<close>). Handlers are taken not to call back into the router.
\<close>

record 'm Parameter =
  name :: string
  annotation :: 'm

record ('m, 'v, 'x, 'r) handler =
  fname :: string
  parameters :: "'m Parameter list"
  call :: "'v \<Rightarrow> 'x + 'r option"

text \<open>
  What a call does besides returning: a warning given to \<^verbatim>\<open>warnings.warn\<close>, and the
  invocation of a handler with its argument. The effects of a call are listed in the
  order in which they happen; a call that raises lists the effects before the raise.
\<close>

datatype ('m, 'v, 'x, 'r) effect =
    Warn string
  | Call "('m, 'v, 'x, 'r) handler" 'v

subsection \<open>The collaborators\<close>

text \<open>
  The envelope \<^verbatim>\<open>Event\<close> is a pydantic model with three fields.
\<close>

record 'p Event =
  channel :: string
  event :: string
  data :: 'p

text \<open>
  Pydantic is not part of the module, so what the module calls of it is a parameter of
  the embedding: \<open>construct m d\<close> is \<^verbatim>\<open>m(**d)\<close>, which returns the typed value or
  raises; \<open>model_schema m\<close> is \<^verbatim>\<open>m.schema()\<close>; \<open>parse_raw s\<close> is
  \<^verbatim>\<open>Event.parse_raw(s)\<close>, which returns the envelope or raises. The annotation
  of a handler's parameter is taken to be a model class, on which \<^verbatim>\<open>schema()\<close>
  returns.
\<close>

record ('m, 'p, 'v, 'x, 's) engine =
  construct :: "'m \<Rightarrow> 'p \<Rightarrow> 'x + 'v"
  model_schema :: "'m \<Rightarrow> 's"
  parse_raw :: "string \<Rightarrow> 'x + 'p Event"

text \<open>The documents that the \<^verbatim>\<open>schema\<close> methods build: strings, schemas, dictionaries.\<close>

datatype 's doc =
    Str string
  | Schema 's
  | Dict "(string \<times> 's doc) list"

subsection \<open>\<^verbatim>\<open>class Subscription\<close>\<close>

record ('m, 'v, 'x, 'r) Subscription =
  func :: "('m, 'v, 'x, 'r) handler"
  signature :: "'m Parameter list"
  model :: 'm

definition Subscription_init ::
  "('m, 'v, 'x, 'r) handler \<Rightarrow> 'x exn + ('m, 'v, 'x, 'r) Subscription" where
  "Subscription_init f =
     (let func_params = parameters f in
      if length func_params \<noteq> 1 then Inl Exception
      else Inr \<lparr>func = f, signature = func_params,
                model = annotation (func_params ! 0)\<rparr>)"

definition Subscription_process ::
  "('m, 'p, 'v, 'x, 's) engine \<Rightarrow> ('m, 'v, 'x, 'r) Subscription \<Rightarrow> 'p \<Rightarrow>
   ('x exn + 'r option) \<times> ('m, 'v, 'x, 'r) effect list" where
  "Subscription_process E sub d =
     (case construct E (Subscription.model sub) d of
        Inl err \<Rightarrow> (Inl (Propagated err), [])
      | Inr validated \<Rightarrow>
          (case call (func sub) validated of
             Inl err \<Rightarrow> (Inl (Propagated err), [Call (func sub) validated])
           | Inr ret \<Rightarrow> (Inr ret, [Call (func sub) validated])))"

definition Subscription_schema ::
  "('m, 'p, 'v, 'x, 's) engine \<Rightarrow> ('m, 'v, 'x, 'r) Subscription \<Rightarrow> 's doc" where
  "Subscription_schema E sub =
     Dict [(''payload'', Schema (model_schema E (Subscription.model sub)))]"

subsection \<open>\<^verbatim>\<open>class Publish\<close>\<close>

record 'm Publish =
  model :: 'm

definition Publish_init :: "'m \<Rightarrow> 'm Publish" where
  "Publish_init m = \<lparr>Publish.model = m\<rparr>"

definition Publish_schema :: "('m, 'p, 'v, 'x, 's) engine \<Rightarrow> 'm Publish \<Rightarrow> 's doc" where
  "Publish_schema E pub = Dict [(''payload'', Schema (model_schema E (Publish.model pub)))]"

subsection \<open>\<^verbatim>\<open>class Channel\<close>\<close>

record ('m, 'v, 'x, 'r) Channel =
  publishers :: "(string, 'm Publish) dict"
  subscribers :: "(string, ('m, 'v, 'x, 'r) Subscription) dict"

definition Channel_init :: "('m, 'v, 'x, 'r) Channel" where
  "Channel_init = \<lparr>publishers = [], subscribers = []\<rparr>"

definition Channel_register_subscription ::
  "('m, 'v, 'x, 'r) Channel \<Rightarrow> string \<Rightarrow> ('m, 'v, 'x, 'r) handler \<Rightarrow>
   ('x exn + unit) \<times> ('m, 'v, 'x, 'r) Channel \<times> ('m, 'v, 'x, 'r) effect list" where
  "Channel_register_subscription ch event_name f =
     (let ws = (if map_of (subscribers ch) event_name \<noteq> None
                then [Warn (''overwriting existing subscription for '' @ event_name)]
                else [])
      in case Subscription_init f of
           Inl err \<Rightarrow> (Inl err, ch, ws)
         | Inr sub \<Rightarrow>
             (Inr (), ch\<lparr>subscribers := AList.update event_name sub (subscribers ch)\<rparr>, ws))"

definition Channel_register_publish ::
  "('m, 'v, 'x, 'r) Channel \<Rightarrow> string \<Rightarrow> 'm \<Rightarrow>
   ('x exn + unit) \<times> ('m, 'v, 'x, 'r) Channel \<times> ('m, 'v, 'x, 'r) effect list" where
  "Channel_register_publish ch event_name m =
     (let ws = (if map_of (publishers ch) event_name \<noteq> None
                then [Warn (''overwriting existing publish for '' @ event_name)]
                else []);
          pub = Publish_init m
      in (Inr (), ch\<lparr>publishers := AList.update event_name pub (publishers ch)\<rparr>, ws))"

text \<open>The decorator of \<^verbatim>\<open>subscribe\<close>, applied to \<open>f\<close>: it registers \<open>f\<close> and returns it.\<close>

definition Channel_subscribe ::
  "('m, 'v, 'x, 'r) Channel \<Rightarrow> string \<Rightarrow> ('m, 'v, 'x, 'r) handler \<Rightarrow>
   ('x exn + ('m, 'v, 'x, 'r) handler) \<times> ('m, 'v, 'x, 'r) Channel \<times>
   ('m, 'v, 'x, 'r) effect list" where
  "Channel_subscribe ch event_name f =
     (case Channel_register_subscription ch event_name f of
        (Inl err, ch', ws) \<Rightarrow> (Inl err, ch', ws)
      | (Inr _, ch', ws) \<Rightarrow> (Inr f, ch', ws))"

definition Channel_process ::
  "('m, 'p, 'v, 'x, 's) engine \<Rightarrow> ('m, 'v, 'x, 'r) Channel \<Rightarrow> string \<Rightarrow> 'p \<Rightarrow>
   ('x exn + 'r option) \<times> ('m, 'v, 'x, 'r) Channel \<times> ('m, 'v, 'x, 'r) effect list" where
  "Channel_process E ch event_name d =
     (case map_of (subscribers ch) event_name of
        Some sub \<Rightarrow> (case Subscription_process E sub d of (res, tr) \<Rightarrow> (res, ch, tr))
      | None \<Rightarrow> (Inr None, ch, []))"

text \<open>
  \<^verbatim>\<open>out = collections.defaultdict(dict)\<close> is a dictionary of dictionaries, and
  \<^verbatim>\<open>out[k][e] = v\<close> first reads \<^verbatim>\<open>out[k]\<close>, which stores an empty dictionary under a
  missing \<open>k\<close>, and then sets \<open>e\<close> in it.
\<close>

definition defaultdict_set ::
  "string \<Rightarrow> string \<Rightarrow> 'a \<Rightarrow> (string, (string, 'a) dict) dict \<Rightarrow>
   (string, (string, 'a) dict) dict" where
  "defaultdict_set k e v out =
     (let inner = (case map_of out k of None \<Rightarrow> [] | Some d \<Rightarrow> d)
      in AList.update k (AList.update e v inner) out)"

definition Channel_schema ::
  "('m, 'p, 'v, 'x, 's) engine \<Rightarrow> ('m, 'v, 'x, 'r) Channel \<Rightarrow> 's doc" where
  "Channel_schema E ch =
     (let out0 = [];
          out1 = fold (\<lambda>(event_name, subscription).
                         defaultdict_set ''publish'' event_name
                           (Subscription_schema E subscription))
                   (subscribers ch) out0;
          out2 = fold (\<lambda>(event_name, publisher).
                         defaultdict_set ''subscribe'' event_name
                           (Publish_schema E publisher))
                   (publishers ch) out1
      in Dict (map (\<lambda>(k, d). (k, Dict d)) out2))"

definition Channel_wf :: "('m, 'v, 'x, 'r) Channel \<Rightarrow> bool" where
  "Channel_wf ch = (dict_wf (publishers ch) \<and> dict_wf (subscribers ch))"

subsection \<open>\<^verbatim>\<open>class ChannelRouter\<close>\<close>

record ('m, 'v, 'x, 'r) ChannelRouter =
  channels :: "(string, ('m, 'v, 'x, 'r) Channel) dict"

definition ChannelRouter_init :: "('m, 'v, 'x, 'r) ChannelRouter" where
  "ChannelRouter_init = \<lparr>channels = []\<rparr>"

text \<open>
  The router holds its channels by reference, so what a method of a channel does to the
  channel is seen in the router: the model stores the channel after the call back under
  its name.
\<close>

definition ChannelRouter_register_subscription ::
  "('m, 'v, 'x, 'r) ChannelRouter \<Rightarrow> string \<Rightarrow> string \<Rightarrow> ('m, 'v, 'x, 'r) handler \<Rightarrow>
   ('x exn + unit) \<times> ('m, 'v, 'x, 'r) ChannelRouter \<times> ('m, 'v, 'x, 'r) effect list" where
  "ChannelRouter_register_subscription r channel_name event_name f =
     (let r1 = (if map_of (channels r) channel_name = None
                then r\<lparr>channels := AList.update channel_name Channel_init (channels r)\<rparr>
                else r)
      in case map_of (channels r1) channel_name of
           None \<Rightarrow> (Inl (KeyError channel_name), r1, [])
         | Some ch \<Rightarrow>
             (case Channel_register_subscription ch event_name f of
                (res, ch', ws) \<Rightarrow>
                  (res, r1\<lparr>channels := AList.update channel_name ch' (channels r1)\<rparr>, ws)))"

definition ChannelRouter_subscribe ::
  "('m, 'v, 'x, 'r) ChannelRouter \<Rightarrow> string \<Rightarrow> string \<Rightarrow> ('m, 'v, 'x, 'r) handler \<Rightarrow>
   ('x exn + ('m, 'v, 'x, 'r) handler) \<times> ('m, 'v, 'x, 'r) ChannelRouter \<times>
   ('m, 'v, 'x, 'r) effect list" where
  "ChannelRouter_subscribe r channel_name event_name f =
     (case ChannelRouter_register_subscription r channel_name event_name f of
        (Inl err, r', ws) \<Rightarrow> (Inl err, r', ws)
      | (Inr _, r', ws) \<Rightarrow> (Inr f, r', ws))"

definition ChannelRouter_process ::
  "('m, 'p, 'v, 'x, 's) engine \<Rightarrow> ('m, 'v, 'x, 'r) ChannelRouter \<Rightarrow> string \<Rightarrow> string \<Rightarrow>
   'p \<Rightarrow>
   ('x exn + 'r option) \<times> ('m, 'v, 'x, 'r) ChannelRouter \<times> ('m, 'v, 'x, 'r) effect list"
  where
  "ChannelRouter_process E r channel_name event_name d =
     (case map_of (channels r) channel_name of
        Some ch \<Rightarrow>
          (case Channel_process E ch event_name d of
             (res, ch', tr) \<Rightarrow>
               (res, r\<lparr>channels := AList.update channel_name ch' (channels r)\<rparr>, tr))
      | None \<Rightarrow> (Inr None, r, []))"

definition ChannelRouter_schema ::
  "('m, 'p, 'v, 'x, 's) engine \<Rightarrow> ('m, 'v, 'x, 'r) ChannelRouter \<Rightarrow> (string, 's doc) dict"
  where
  "ChannelRouter_schema E r =
     fold (\<lambda>(name, channel). AList.update name (Channel_schema E channel)) (channels r) []"

definition ChannelRouter_wf :: "('m, 'v, 'x, 'r) ChannelRouter \<Rightarrow> bool" where
  "ChannelRouter_wf r =
     (dict_wf (channels r) \<and> list_all (\<lambda>(name, channel). Channel_wf channel) (channels r))"

subsection \<open>\<^verbatim>\<open>class Application\<close>\<close>

record ('m, 'v, 'x, 'r) Application =
  router :: "('m, 'v, 'x, 'r) ChannelRouter"

definition Application_init :: "('m, 'v, 'x, 'r) Application" where
  "Application_init = \<lparr>router = ChannelRouter_init\<rparr>"

definition Application_register_subscription ::
  "('m, 'v, 'x, 'r) Application \<Rightarrow> string \<Rightarrow> string \<Rightarrow> ('m, 'v, 'x, 'r) handler \<Rightarrow>
   ('x exn + unit) \<times> ('m, 'v, 'x, 'r) Application \<times> ('m, 'v, 'x, 'r) effect list" where
  "Application_register_subscription app c n f =
     (case ChannelRouter_register_subscription (router app) c n f of
        (res, r', ws) \<Rightarrow> (res, app\<lparr>router := r'\<rparr>, ws))"

definition Application_subscribe ::
  "('m, 'v, 'x, 'r) Application \<Rightarrow> string \<Rightarrow> string \<Rightarrow> ('m, 'v, 'x, 'r) handler \<Rightarrow>
   ('x exn + ('m, 'v, 'x, 'r) handler) \<times> ('m, 'v, 'x, 'r) Application \<times>
   ('m, 'v, 'x, 'r) effect list" where
  "Application_subscribe app channel_name event_name f =
     (case Application_register_subscription app channel_name event_name f of
        (Inl err, app', ws) \<Rightarrow> (Inl err, app', ws)
      | (Inr _, app', ws) \<Rightarrow> (Inr f, app', ws))"

definition Application_process ::
  "('m, 'p, 'v, 'x, 's) engine \<Rightarrow> ('m, 'v, 'x, 'r) Application \<Rightarrow> string \<Rightarrow>
   ('x exn + 'r option) \<times> ('m, 'v, 'x, 'r) Application \<times> ('m, 'v, 'x, 'r) effect list"
  where
  "Application_process E app message =
     (case parse_raw E message of
        Inl err \<Rightarrow> (Inl (Propagated err), app, [])
      | Inr ev \<Rightarrow>
          (case ChannelRouter_process E (router app) (channel ev) (event ev) (data ev) of
             (res, r', tr) \<Rightarrow> (res, app\<lparr>router := r'\<rparr>, tr)))"

definition Application_schema ::
  "('m, 'p, 'v, 'x, 's) engine \<Rightarrow> ('m, 'v, 'x, 'r) Application \<Rightarrow> 's doc" where
  "Application_schema E app =
     (let out = [(''asyncapi'', Str ''2.2.0'')];
          out' = AList.update ''channels'' (Dict (ChannelRouter_schema E (router app))) out
      in Dict out')"

subsection \<open>Clients of the module\<close>

text \<open>
  A caller that dispatches the same envelope \<open>n\<close> times, one call after the other on
  the router the call before left: the results in order, the router at the end and the
  effects of all calls.
\<close>

fun process_repeat ::
  "nat \<Rightarrow> ('m, 'p, 'v, 'x, 's) engine \<Rightarrow> ('m, 'v, 'x, 'r) ChannelRouter \<Rightarrow> string \<Rightarrow>
   string \<Rightarrow> 'p \<Rightarrow>
   ('x exn + 'r option) list \<times> ('m, 'v, 'x, 'r) ChannelRouter \<times>
   ('m, 'v, 'x, 'r) effect list" where
  "process_repeat 0 E r c e d = ([], r, [])"
| "process_repeat (Suc n) E r c e d =
     (case ChannelRouter_process E r c e d of
        (res, r', tr) \<Rightarrow>
          (case process_repeat n E r' c e d of
             (ress, r'', tr') \<Rightarrow> (res # ress, r'', tr @ tr')))"

text \<open>
  The methods that \<^verbatim>\<open>class Application\<close> defines are \<^verbatim>\<open>register_subscription\<close>,
  \<^verbatim>\<open>subscribe\<close>, \<^verbatim>\<open>process\<close> and \<^verbatim>\<open>schema\<close>. \<open>Application_call\<close> is the
  application after one such call, whether the call returned or raised, and
  \<open>Application_run\<close> the application after a sequence of calls on a new
  \<^verbatim>\<open>Application()\<close>.
\<close>

datatype ('m, 'v, 'x, 'r) api_call =
    RegisterSubscription string string "('m, 'v, 'x, 'r) handler"
  | Subscribe string string "('m, 'v, 'x, 'r) handler"
  | ProcessMessage string
  | SchemaExport

fun Application_call ::
  "('m, 'p, 'v, 'x, 's) engine \<Rightarrow> ('m, 'v, 'x, 'r) Application \<Rightarrow>
   ('m, 'v, 'x, 'r) api_call \<Rightarrow> ('m, 'v, 'x, 'r) Application" where
  "Application_call E app (RegisterSubscription c n f) =
     fst (snd (Application_register_subscription app c n f))"
| "Application_call E app (Subscribe c n f) = fst (snd (Application_subscribe app c n f))"
| "Application_call E app (ProcessMessage message) =
     fst (snd (Application_process E app message))"
| "Application_call E app SchemaExport = app"

definition Application_run ::
  "('m, 'p, 'v, 'x, 's) engine \<Rightarrow> ('m, 'v, 'x, 'r) api_call list \<Rightarrow>
   ('m, 'v, 'x, 'r) Application" where
  "Application_run E calls = fold (\<lambda>c app. Application_call E app c) calls Application_init"

text \<open>
  Reading a document: \<open>doc_get d k\<close> is \<^verbatim>\<open>d[k]\<close> and \<open>doc_path d [k1, k2]\<close> is
  \<^verbatim>\<open>d[k1][k2]\<close>, with \<open>None\<close> where the key is missing.
\<close>

fun doc_get :: "'s doc \<Rightarrow> string \<Rightarrow> 's doc option" where
  "doc_get (Dict kvs) k = map_of kvs k"
| "doc_get (Str s) k = None"
| "doc_get (Schema s) k = None"

fun doc_path :: "'s doc \<Rightarrow> string list \<Rightarrow> 's doc option" where
  "doc_path d [] = Some d"
| "doc_path d (k # ks) = (case doc_get d k of None \<Rightarrow> None | Some d' \<Rightarrow> doc_path d' ks)"

subsection \<open>A small instance\<close>

text \<open>
  An instance on which the definitions run. A shape is the list of the fields it
  requires, a payload maps field names to strings, validation keeps the declared fields
  and fails when one is missing, and the schema of a shape is its list of fields. The
  decoder knows three messages.
\<close>

type_synonym fields = "(string \<times> string) list"

definition demo_messages :: "(string \<times> fields Event) list" where
  "demo_messages =
     [(''hi'', \<lparr>channel = ''chat'', event = ''message'', data = [(''text'', ''hi'')]\<rparr>),
      (''empty'', \<lparr>channel = ''chat'', event = ''message'', data = []\<rparr>),
      (''unknown'', \<lparr>channel = ''chat'', event = ''unknown'', data = []\<rparr>)]"

definition demo_engine :: "(string list, fields, fields, string, string list) engine" where
  "demo_engine =
     \<lparr>construct = (\<lambda>m d. if list_all (\<lambda>k. map_of d k \<noteq> None) m
                          then Inr (filter (\<lambda>kv. fst kv \<in> set m) d)
                          else Inl ''field required''),
      model_schema = (\<lambda>m. m),
      parse_raw = (\<lambda>s. case map_of demo_messages s of
                          None \<Rightarrow> Inl ''invalid envelope''
                        | Some ev \<Rightarrow> Inr ev)\<rparr>"

definition on_message :: "(string list, fields, string, string) handler" where
  "on_message =
     \<lparr>fname = ''on_message'',
      parameters = [\<lparr>name = ''msg'', annotation = [''text'']\<rparr>],
      call = (\<lambda>v. Inr (map_of v ''text''))\<rparr>"

definition on_message2 :: "(string list, fields, string, string) handler" where
  "on_message2 =
     \<lparr>fname = ''on_message2'',
      parameters = [\<lparr>name = ''msg'', annotation = [''text'']\<rparr>],
      call = (\<lambda>v. Inr (Some ''seen''))\<rparr>"

definition no_params :: "(string list, fields, string, string) handler" where
  "no_params = \<lparr>fname = ''tick'', parameters = [], call = (\<lambda>v. Inr None)\<rparr>"

definition chat_subscription :: "(string list, fields, string, string) Subscription" where
  "chat_subscription =
     \<lparr>func = on_message, signature = parameters on_message, model = [''text'']\<rparr>"

definition chat_channel :: "(string list, fields, string, string) Channel" where
  "chat_channel = \<lparr>publishers = [], subscribers = [(''message'', chat_subscription)]\<rparr>"

definition chat_router :: "(string list, fields, string, string) ChannelRouter" where
  "chat_router = \<lparr>channels = [(''chat'', chat_channel)]\<rparr>"

definition chat_app :: "(string list, fields, string, string) Application" where
  "chat_app = \<lparr>router = chat_router\<rparr>"

definition chat_router2 :: "(string list, fields, string, string) ChannelRouter" where
  "chat_router2 =
     \<lparr>channels =
        [(''chat'',
          \<lparr>publishers = [],
             subscribers =
               [(''message'',
                 \<lparr>func = on_message2, signature = parameters on_message2,
                    model = [''text'']\<rparr>)]\<rparr>)]\<rparr>"

definition orders_channel :: "(string list, fields, string, string) Channel" where
  "orders_channel =
     \<lparr>publishers = [(''shipped'', \<lparr>Publish.model = [''trackingId'']\<rparr>)],
      subscribers =
        [(''created'',
          \<lparr>func = on_message, signature = parameters on_message, model = [''id'']\<rparr>)]\<rparr>"

definition orders_app :: "(string list, fields, string, string) Application" where
  "orders_app = \<lparr>router = \<lparr>channels = [(''orders'', orders_channel)]\<rparr>\<rparr>"

subsection \<open>Invariants\<close>

text \<open>No channel of the router holds a publish descriptor.\<close>

definition no_publish :: "('m, 'v, 'x, 'r) ChannelRouter \<Rightarrow> bool" where
  "no_publish r = list_all (\<lambda>(name, channel). publishers channel = []) (channels r)"

section \<open>Properties\<close>

subsection \<open>Dictionary updates\<close>

lemma update_absent: "map_of al k = None \<Longrightarrow> AList.update k v al = al @ [(k, v)]"
  by (induction al) (auto split: if_splits)

lemma update_snoc_same:
  "map_of al k = None \<Longrightarrow> AList.update k v (al @ [(k, w)]) = al @ [(k, v)]"
  by (induction al) (auto split: if_splits)

lemma update_entries:
  "p \<in> set (AList.update k v al) \<Longrightarrow> p = (k, v) \<or> p \<in> set al"
  by (induction al) (auto split: if_splits)

lemma count_update:
  "dict_wf al \<Longrightarrow> length (filter (\<lambda>kv. fst kv = k) (AList.update k v al)) = 1"
proof (induction al)
  case Nil
  then show ?case by simp
next
  case (Cons p ps)
  have wf: "dict_wf ps" using Cons.prems by (simp add: dict_wf_def)
  show ?case
  proof (cases "fst p = k")
    case True
    then have "k \<notin> fst ` set ps" using Cons.prems by (auto simp: dict_wf_def)
    then have "filter (\<lambda>kv. fst kv = k) ps = []"
      by (auto simp: filter_empty_conv)
    with True show ?thesis by simp
  next
    case False
    then show ?thesis using Cons.IH [OF wf] by simp
  qed
qed

lemmas demo_defs =
  demo_engine_def demo_messages_def on_message_def on_message2_def no_params_def
  chat_subscription_def chat_channel_def chat_router_def chat_app_def
  chat_router2_def
  orders_channel_def orders_app_def

subsection \<open>Registration\<close>

text \<open>
  C10. When \<^verbatim>\<open>Channel.register_subscription\<close> is called for an event name that has
  a stored subscription, with a handler that does not declare exactly one parameter,
  the call gives the overwrite warning and then raises the exception of
  \<^verbatim>\<open>Subscription.__init__\<close>: the warning is the one effect of the call, the channel
  is as it was, and the event name is still bound to the subscription stored before.
\<close>

theorem Channel_register_subscription_bad_overwrite:
  assumes "map_of (subscribers ch) e = Some old" and "length (parameters f) \<noteq> 1"
  shows "Channel_register_subscription ch e f =
           (Inl Exception, ch, [Warn (''overwriting existing subscription for '' @ e)]) \<and>
         map_of (subscribers (fst (snd (Channel_register_subscription ch e f)))) e = Some old"
  using assms
  by (simp add: Channel_register_subscription_def Subscription_init_def Let_def)

theorem Channel_register_subscription_bad_overwrite_witness:
  "map_of (subscribers chat_channel) ''message'' = Some chat_subscription \<and>
   length (parameters no_params) \<noteq> 1 \<and>
   Channel_register_subscription chat_channel ''message'' no_params =
     (Inl Exception, chat_channel,
      [Warn ''overwriting existing subscription for message'']) \<and>
   map_of (subscribers
             (fst (snd (Channel_register_subscription chat_channel ''message'' no_params))))
     ''message'' = Some chat_subscription"
proof -
  have stored: "map_of (subscribers chat_channel) ''message'' = Some chat_subscription"
    by (simp add: chat_channel_def)
  have arity: "length (parameters no_params) \<noteq> 1"
    by (simp add: no_params_def)
  show ?thesis
    using Channel_register_subscription_bad_overwrite [OF stored arity] stored arity
    by simp
qed

text \<open>
  C4. A handler that declares no parameter, or two or more, is refused when it is
  registered: \<^verbatim>\<open>Channel.register_subscription\<close> raises the exception of
  \<^verbatim>\<open>Subscription.__init__\<close> and stores nothing: the channel is as it was before the
  call, and the event name is bound to what it was bound to before, to nothing when it
  was not registered. A handler that declares exactly one parameter is registered: the call returns,
  and the event name is bound to a subscription of the handler whose model is the
  annotation of that parameter, in a channel that differs from the one before in this
  binding only.
\<close>

theorem Channel_register_subscription_arity:
  "(length (parameters f) \<noteq> 1 \<longrightarrow>
      fst (Channel_register_subscription ch e f) = Inl Exception \<and>
      fst (snd (Channel_register_subscription ch e f)) = ch \<and>
      map_of (subscribers (fst (snd (Channel_register_subscription ch e f)))) e =
        map_of (subscribers ch) e) \<and>
   (\<forall>p. parameters f = [p] \<longrightarrow>
      fst (Channel_register_subscription ch e f) = Inr () \<and>
      fst (snd (Channel_register_subscription ch e f)) =
        ch\<lparr>subscribers :=
             AList.update e \<lparr>func = f, signature = [p], model = annotation p\<rparr>
               (subscribers ch)\<rparr> \<and>
      map_of (subscribers (fst (snd (Channel_register_subscription ch e f)))) e =
        Some \<lparr>func = f, signature = [p], model = annotation p\<rparr>)"
  by (simp add: Channel_register_subscription_def Subscription_init_def Let_def
      AList.update_conv')

theorem Channel_register_subscription_arity_witness:
  "length (parameters no_params) \<noteq> 1 \<and>
   fst (Channel_register_subscription Channel_init ''message'' no_params) = Inl Exception \<and>
   fst (snd (Channel_register_subscription Channel_init ''message'' no_params)) =
     Channel_init \<and>
   map_of (subscribers
             (fst (snd (Channel_register_subscription Channel_init ''message'' no_params))))
     ''message'' = None \<and>
   parameters on_message = [\<lparr>name = ''msg'', annotation = [''text'']\<rparr>] \<and>
   fst (Channel_register_subscription Channel_init ''message'' on_message) = Inr () \<and>
   fst (snd (Channel_register_subscription Channel_init ''message'' on_message)) =
     chat_channel"
proof -
  have bad: "length (parameters no_params) \<noteq> 1"
    by (simp add: no_params_def)
  have good: "parameters on_message = [\<lparr>name = ''msg'', annotation = [''text'']\<rparr>]"
    by (simp add: on_message_def)
  have stored:
    "Channel_init\<lparr>subscribers :=
        AList.update ''message''
          \<lparr>func = on_message, signature = [\<lparr>name = ''msg'', annotation = [''text'']\<rparr>],
             model = annotation \<lparr>name = ''msg'', annotation = [''text'']\<rparr>\<rparr>
          (subscribers Channel_init)\<rparr> = chat_channel"
    by (simp add: Channel_init_def chat_channel_def chat_subscription_def good)
  have fresh: "map_of (subscribers (Channel_init ::
                  (string list, fields, string, string) Channel)) ''message'' = None"
    by (simp add: Channel_init_def)
  show ?thesis
    using Channel_register_subscription_arity [of no_params Channel_init "''message''"]
      Channel_register_subscription_arity [of on_message Channel_init "''message''"]
      bad good stored fresh
    by simp
qed

text \<open>
  C9. When \<^verbatim>\<open>ChannelRouter.register_subscription\<close> is called with a channel name
  that the router does not have and a handler that does not declare exactly one
  parameter, the call raises the exception of \<^verbatim>\<open>Subscription.__init__\<close>, with no
  warning, and the router is left with one more channel: a new \<^verbatim>\<open>Channel()\<close>, both
  registries empty, stored under that name after the channels it had.
\<close>

theorem ChannelRouter_register_subscription_bad_new_channel:
  assumes "map_of (channels r) c = None" and "length (parameters f) \<noteq> 1"
  shows "ChannelRouter_register_subscription r c e f =
           (Inl Exception, r\<lparr>channels := channels r @ [(c, Channel_init)]\<rparr>, []) \<and>
         map_of (channels (fst (snd (ChannelRouter_register_subscription r c e f)))) c =
           Some \<lparr>publishers = [], subscribers = []\<rparr>"
proof -
  have reg: "Channel_register_subscription (Channel_init :: ('a, 'b, 'c, 'd) Channel) e f =
               (Inl Exception, Channel_init, [])"
    using assms(2)
    by (simp add: Channel_register_subscription_def Subscription_init_def Let_def
        Channel_init_def)
  have stored:
    "map_of (AList.update c (Channel_init :: ('a, 'b, 'c, 'd) Channel) (channels r)) c =
       Some Channel_init"
    by (simp add: AList.update_conv')
  have call: "ChannelRouter_register_subscription r c e f =
           (Inl Exception, r\<lparr>channels := channels r @ [(c, Channel_init)]\<rparr>, [])"
    using assms(1) reg stored
    by (simp add: ChannelRouter_register_subscription_def Let_def AList.update_triv
        update_absent)
  have "map_of (channels r @ [(c, Channel_init :: ('a, 'b, 'c, 'd) Channel)]) c =
          Some \<lparr>publishers = [], subscribers = []\<rparr>"
    using assms(1) by (simp add: map_add_def Channel_init_def)
  with call show ?thesis by simp
qed

theorem ChannelRouter_register_subscription_bad_new_channel_witness:
  "map_of (channels chat_router) ''orders'' = None \<and>
   length (parameters no_params) \<noteq> 1 \<and>
   ChannelRouter_register_subscription chat_router ''orders'' ''created'' no_params =
     (Inl Exception,
      \<lparr>channels = [(''chat'', chat_channel),
                    (''orders'', \<lparr>publishers = [], subscribers = []\<rparr>)]\<rparr>,
      [])"
proof -
  have absent: "map_of (channels chat_router) ''orders'' = None"
    by (simp add: chat_router_def)
  have bad: "length (parameters no_params) \<noteq> 1"
    by (simp add: no_params_def)
  show ?thesis
    using ChannelRouter_register_subscription_bad_new_channel
            [OF absent bad, of "''created''"] absent bad
    by (simp add: chat_router_def Channel_init_def)
qed

subsection \<open>Registering twice\<close>

text \<open>What a registration that succeeds does to the router.\<close>

lemma ChannelRouter_register_subscription_ok:
  assumes "parameters f = [p]"
  shows "ChannelRouter_register_subscription r c e f =
           (Inr (),
            r\<lparr>channels :=
                 AList.update c
                   ((case map_of (channels r) c of None \<Rightarrow> Channel_init | Some ch \<Rightarrow> ch)
                      \<lparr>subscribers :=
                         AList.update e \<lparr>func = f, signature = [p], model = annotation p\<rparr>
                           (subscribers
                              (case map_of (channels r) c of
                                 None \<Rightarrow> Channel_init | Some ch \<Rightarrow> ch))\<rparr>)
                   (channels r)\<rparr>,
            if (case map_of (channels r) c of
                  None \<Rightarrow> None | Some ch \<Rightarrow> map_of (subscribers ch) e) \<noteq> None
            then [Warn (''overwriting existing subscription for '' @ e)] else [])"
proof (cases "map_of (channels r) c")
  case None
  then show ?thesis
    using assms
    by (simp add: ChannelRouter_register_subscription_def Channel_register_subscription_def
        Subscription_init_def Let_def AList.update_conv' Channel_init_def)
next
  case (Some ch)
  then show ?thesis
    using assms
    by (simp add: ChannelRouter_register_subscription_def Channel_register_subscription_def
        Subscription_init_def Let_def)
qed

lemma ChannelRouter_wf_lookup:
  "ChannelRouter_wf r \<Longrightarrow> map_of (channels r) c = Some ch \<Longrightarrow> Channel_wf ch"
  by (auto simp: ChannelRouter_wf_def list_all_iff dest!: map_of_SomeD)

lemma Subscription_process_calls:
  "Call h v \<in> set (snd (Subscription_process E sub d)) \<Longrightarrow> h = func sub"
  by (auto simp: Subscription_process_def split: sum.splits)

text \<open>
  C5. Two registrations of handlers with one parameter each, for the same channel and
  event name, one after the other on a router whose dictionaries have distinct keys:
  the second call returns and gives the overwrite warning; the channel then holds
  exactly one entry for the event name, the subscription of the second handler; a
  dispatch for the pair with a payload that the second handler's model accepts calls
  the second handler once, with the typed value, and returns its outcome; and every
  handler call that any dispatch for the pair makes is a call of the second handler, so
  none is a call of the first when the two differ.
\<close>

theorem ChannelRouter_register_subscription_twice:
  assumes wf: "ChannelRouter_wf r"
    and p1: "parameters f1 = [p1]" and p2: "parameters f2 = [p2]"
    and reg1: "ChannelRouter_register_subscription r c e f1 = (res1, r1, ws1)"
    and reg2: "ChannelRouter_register_subscription r1 c e f2 = (res2, r2, ws2)"
  shows "res2 = Inr () \<and>
         ws2 = [Warn (''overwriting existing subscription for '' @ e)] \<and>
         (\<exists>ch. map_of (channels r2) c = Some ch \<and>
               map_of (subscribers ch) e =
                 Some \<lparr>func = f2, signature = [p2], model = annotation p2\<rparr> \<and>
               length (filter (\<lambda>kv. fst kv = e) (subscribers ch)) = 1) \<and>
         (\<forall>d v. construct E (annotation p2) d = Inr v \<longrightarrow>
                ChannelRouter_process E r2 c e d =
                  (case call f2 v of Inl x \<Rightarrow> Inl (Propagated x) | Inr ret \<Rightarrow> Inr ret,
                   r2, [Call f2 v])) \<and>
         (\<forall>d h v. Call h v \<in> set (snd (snd (ChannelRouter_process E r2 c e d))) \<longrightarrow>
                  h = f2) \<and>
         (f1 \<noteq> f2 \<longrightarrow>
            (\<forall>d v. Call f1 v \<notin> set (snd (snd (ChannelRouter_process E r2 c e d)))))"
proof -
  define ch0 where
    "ch0 = (case map_of (channels r) c of None \<Rightarrow> Channel_init | Some ch \<Rightarrow> ch)"
  define s1 where "s1 = \<lparr>func = f1, signature = [p1], model = annotation p1\<rparr>"
  define s2 where "s2 = \<lparr>func = f2, signature = [p2], model = annotation p2\<rparr>"
  define ch1 where "ch1 = ch0\<lparr>subscribers := AList.update e s1 (subscribers ch0)\<rparr>"
  define ch2 where "ch2 = ch0\<lparr>subscribers := AList.update e s2 (subscribers ch0)\<rparr>"
  have wf0: "dict_wf (subscribers ch0)"
  proof (cases "map_of (channels r) c")
    case None
    then show ?thesis by (simp add: ch0_def Channel_init_def dict_wf_def)
  next
    case (Some ch)
    then show ?thesis
      using ChannelRouter_wf_lookup [OF wf Some] by (simp add: ch0_def Channel_wf_def)
  qed
  have r1: "r1 = r\<lparr>channels := AList.update c ch1 (channels r)\<rparr>"
    using reg1 ChannelRouter_register_subscription_ok [OF p1, of r c e]
    by (simp add: ch0_def s1_def ch1_def)
  have look1: "map_of (channels r1) c = Some ch1"
    by (simp add: r1 AList.update_conv')
  have bound1: "map_of (subscribers ch1) e = Some s1"
    by (simp add: ch1_def AList.update_conv')
  have step2: "(res2, r2, ws2) =
      (Inr (),
       r1\<lparr>channels :=
            AList.update c (ch1\<lparr>subscribers := AList.update e s2 (subscribers ch1)\<rparr>)
              (channels r1)\<rparr>,
       [Warn (''overwriting existing subscription for '' @ e)])"
    using reg2 ChannelRouter_register_subscription_ok [OF p2, of r1 c e] look1 bound1
    by (simp add: s2_def)
  have ch12: "ch1\<lparr>subscribers := AList.update e s2 (subscribers ch1)\<rparr> = ch2"
    by (simp add: ch1_def ch2_def)
  have r2: "r2 = r1\<lparr>channels := AList.update c ch2 (channels r1)\<rparr>"
    using step2 ch12 by simp
  have look2: "map_of (channels r2) c = Some ch2"
    by (simp add: r2 AList.update_conv')
  have bound2: "map_of (subscribers ch2) e = Some s2"
    by (simp add: ch2_def AList.update_conv')
  have one: "length (filter (\<lambda>kv. fst kv = e) (subscribers ch2)) = 1"
    using count_update [OF wf0, of e s2] by (simp add: ch2_def)
  have calls: "h = f2"
    if "Call h v \<in> set (snd (snd (ChannelRouter_process E r2 c e d)))" for d h v
  proof -
    have "snd (snd (ChannelRouter_process E r2 c e d)) = snd (Subscription_process E s2 d)"
      using look2 bound2
      by (simp add: ChannelRouter_process_def Channel_process_def split: prod.splits)
    with that have "Call h v \<in> set (snd (Subscription_process E s2 d))" by simp
    from Subscription_process_calls [OF this] show ?thesis by (simp add: s2_def)
  qed
  have invoked:
    "ChannelRouter_process E r2 c e d =
       (case call f2 v of Inl x \<Rightarrow> Inl (Propagated x) | Inr ret \<Rightarrow> Inr ret,
        r2, [Call f2 v])"
    if "construct E (annotation p2) d = Inr v" for d v
    using look2 bound2 that
    by (simp add: ChannelRouter_process_def Channel_process_def Subscription_process_def
        AList.update_triv s2_def split: sum.splits)
  from step2 have "res2 = Inr ()"
    and "ws2 = [Warn (''overwriting existing subscription for '' @ e)]"
    by simp_all
  moreover have "\<exists>ch. map_of (channels r2) c = Some ch \<and>
               map_of (subscribers ch) e = Some s2 \<and>
               length (filter (\<lambda>kv. fst kv = e) (subscribers ch)) = 1"
    using look2 bound2 one by blast
  ultimately show ?thesis using calls invoked unfolding s2_def by blast
qed

theorem ChannelRouter_register_subscription_twice_witness:
  "ChannelRouter_wf (ChannelRouter_init :: (string list, fields, string, string) ChannelRouter) \<and>
   parameters on_message = [\<lparr>name = ''msg'', annotation = [''text'']\<rparr>] \<and>
   parameters on_message2 = [\<lparr>name = ''msg'', annotation = [''text'']\<rparr>] \<and>
   ChannelRouter_register_subscription ChannelRouter_init ''chat'' ''message'' on_message =
     (Inr (), chat_router, []) \<and>
   ChannelRouter_register_subscription chat_router ''chat'' ''message'' on_message2 =
     (Inr (), chat_router2, [Warn ''overwriting existing subscription for message'']) \<and>
   (\<exists>ch. map_of (channels chat_router2) ''chat'' = Some ch \<and>
         map_of (subscribers ch) ''message'' =
           Some \<lparr>func = on_message2,
                  signature = [\<lparr>name = ''msg'', annotation = [''text'']\<rparr>],
                  model = [''text'']\<rparr> \<and>
         length (filter (\<lambda>kv. fst kv = ''message'') (subscribers ch)) = 1) \<and>
   construct demo_engine [''text''] [(''text'', ''hi'')] = Inr [(''text'', ''hi'')] \<and>
   ChannelRouter_process demo_engine chat_router2 ''chat'' ''message'' [(''text'', ''hi'')] =
     (Inr (Some ''seen''), chat_router2, [Call on_message2 [(''text'', ''hi'')]]) \<and>
   on_message \<noteq> on_message2 \<and>
   (\<forall>d v. Call on_message v \<notin>
      set (snd (snd (ChannelRouter_process demo_engine chat_router2 ''chat'' ''message'' d))))"
proof -
  have wf: "ChannelRouter_wf
              (ChannelRouter_init :: (string list, fields, string, string) ChannelRouter)"
    by (simp add: ChannelRouter_wf_def ChannelRouter_init_def dict_wf_def)
  have p1: "parameters on_message = [\<lparr>name = ''msg'', annotation = [''text'']\<rparr>]"
    by (simp add: on_message_def)
  have p2: "parameters on_message2 = [\<lparr>name = ''msg'', annotation = [''text'']\<rparr>]"
    by (simp add: on_message2_def)
  have reg1:
    "ChannelRouter_register_subscription ChannelRouter_init ''chat'' ''message'' on_message =
       (Inr (), chat_router, [])"
    by (simp add: ChannelRouter_register_subscription_def
        Channel_register_subscription_def Subscription_init_def Let_def
        ChannelRouter_init_def Channel_init_def chat_router_def chat_channel_def
        chat_subscription_def p1)
  have reg2:
    "ChannelRouter_register_subscription chat_router ''chat'' ''message'' on_message2 =
       (Inr (), chat_router2, [Warn ''overwriting existing subscription for message''])"
    by (simp add: ChannelRouter_register_subscription_def
        Channel_register_subscription_def Subscription_init_def Let_def
        chat_router_def chat_channel_def chat_router2_def p2)
  have ne: "on_message \<noteq> on_message2"
    by (simp add: on_message_def on_message2_def)
  have ok: "construct demo_engine [''text''] [(''text'', ''hi'')] = Inr [(''text'', ''hi'')]"
    by (simp add: demo_engine_def)
  have ret: "call on_message2 [(''text'', ''hi'')] = Inr (Some ''seen'')"
    by (simp add: on_message2_def)
  note inst =
    ChannelRouter_register_subscription_twice [OF wf p1 p2 reg1 reg2, of demo_engine]
  from inst ok have
    "ChannelRouter_process demo_engine chat_router2 ''chat'' ''message''
       [(''text'', ''hi'')] =
     (case call on_message2 [(''text'', ''hi'')] of
        Inl x \<Rightarrow> Inl (Propagated x) | Inr ret \<Rightarrow> Inr ret,
      chat_router2, [Call on_message2 [(''text'', ''hi'')]])"
    by simp
  then have invoked:
    "ChannelRouter_process demo_engine chat_router2 ''chat'' ''message''
       [(''text'', ''hi'')] =
     (Inr (Some ''seen''), chat_router2, [Call on_message2 [(''text'', ''hi'')]])"
    by (simp add: ret)
  show ?thesis
    using inst wf p1 p2 reg1 reg2 ne ok invoked
    by simp
qed

subsection \<open>Dispatch\<close>

text \<open>Dispatch assigns to nothing: the router and the application are as before.\<close>

lemma ChannelRouter_process_state: "fst (snd (ChannelRouter_process E r c e d)) = r"
  by (simp add: ChannelRouter_process_def Channel_process_def AList.update_triv
      split: option.splits prod.splits)

lemma Application_process_state: "fst (snd (Application_process E app m)) = app"
proof (cases "parse_raw E m")
  case (Inl err)
  then show ?thesis by (simp add: Application_process_def)
next
  case (Inr ev)
  obtain res r' tr where
    p: "ChannelRouter_process E (router app) (channel ev) (event ev) (data ev) = (res, r', tr)"
    by (cases "ChannelRouter_process E (router app) (channel ev) (event ev) (data ev)") auto
  with ChannelRouter_process_state [of E "router app" "channel ev" "event ev" "data ev"]
  have "r' = router app" by simp
  with Inr p show ?thesis by (simp add: Application_process_def)
qed

text \<open>
  C1. When the router has the channel, the channel has a subscription for the event
  name and the model accepts the raw payload, giving the typed value \<open>v\<close>, then
  \<^verbatim>\<open>ChannelRouter.process\<close> calls the handler of the subscription once, with \<open>v\<close>,
  and calls nothing else; the caller gets what the handler returned (or the exception
  the handler raised), and the router is unchanged.
\<close>

theorem ChannelRouter_process_valid:
  assumes "map_of (channels r) c = Some ch"
    and "map_of (subscribers ch) e = Some sub"
    and "construct E (Subscription.model sub) d = Inr v"
  shows "ChannelRouter_process E r c e d =
           (case call (func sub) v of Inl x \<Rightarrow> Inl (Propagated x) | Inr ret \<Rightarrow> Inr ret,
            r, [Call (func sub) v])"
  using assms
  by (simp add: ChannelRouter_process_def Channel_process_def Subscription_process_def
      AList.update_triv split: sum.splits)

theorem ChannelRouter_process_valid_witness:
  "map_of (channels chat_router) ''chat'' = Some chat_channel \<and>
   map_of (subscribers chat_channel) ''message'' = Some chat_subscription \<and>
   construct demo_engine (Subscription.model chat_subscription) [(''text'', ''hi'')] =
     Inr [(''text'', ''hi'')] \<and>
   call on_message [(''text'', ''hi'')] = Inr (Some ''hi'') \<and>
   ChannelRouter_process demo_engine chat_router ''chat'' ''message'' [(''text'', ''hi'')] =
     (Inr (Some ''hi''), chat_router, [Call on_message [(''text'', ''hi'')]])"
proof -
  have ch: "map_of (channels chat_router) ''chat'' = Some chat_channel"
    by (simp add: chat_router_def)
  have sub: "map_of (subscribers chat_channel) ''message'' = Some chat_subscription"
    by (simp add: chat_channel_def)
  have ok: "construct demo_engine (Subscription.model chat_subscription)
              [(''text'', ''hi'')] = Inr [(''text'', ''hi'')]"
    by (simp add: demo_engine_def chat_subscription_def)
  have ret: "call on_message [(''text'', ''hi'')] = Inr (Some ''hi'')"
    by (simp add: on_message_def)
  have f: "func chat_subscription = on_message"
    by (simp add: chat_subscription_def)
  show ?thesis
    using ChannelRouter_process_valid [OF ch sub ok] ch sub ok ret f
    by simp
qed

text \<open>
  C2. When the router has the channel, the channel has a subscription for the event
  name and the model rejects the raw payload with the exception \<open>err\<close>, then
  \<^verbatim>\<open>ChannelRouter.process\<close> raises \<open>err\<close> itself and has no effect: the handler is
  not called, and the router is unchanged.
\<close>

theorem ChannelRouter_process_invalid:
  assumes "map_of (channels r) c = Some ch"
    and "map_of (subscribers ch) e = Some sub"
    and "construct E (Subscription.model sub) d = Inl err"
  shows "ChannelRouter_process E r c e d = (Inl (Propagated err), r, [])"
  using assms
  by (simp add: ChannelRouter_process_def Channel_process_def Subscription_process_def
      AList.update_triv)

theorem ChannelRouter_process_invalid_witness:
  "map_of (channels chat_router) ''chat'' = Some chat_channel \<and>
   map_of (subscribers chat_channel) ''message'' = Some chat_subscription \<and>
   construct demo_engine (Subscription.model chat_subscription) [] =
     Inl ''field required'' \<and>
   ChannelRouter_process demo_engine chat_router ''chat'' ''message'' [] =
     (Inl (Propagated ''field required''), chat_router, [])"
proof -
  have ch: "map_of (channels chat_router) ''chat'' = Some chat_channel"
    by (simp add: chat_router_def)
  have sub: "map_of (subscribers chat_channel) ''message'' = Some chat_subscription"
    by (simp add: chat_channel_def)
  have bad: "construct demo_engine (Subscription.model chat_subscription) [] =
               Inl ''field required''"
    by (simp add: demo_engine_def chat_subscription_def)
  show ?thesis
    using ChannelRouter_process_invalid [OF ch sub bad] ch sub bad
    by simp
qed

text \<open>
  C3. When the router does not have the channel, or has it without a subscription for
  the event name, \<^verbatim>\<open>ChannelRouter.process\<close> returns \<^verbatim>\<open>None\<close>, raises nothing, has
  no effect and leaves the router as it was; and so do \<open>n\<close> such calls in a row, for
  every \<open>n\<close>.
\<close>

theorem ChannelRouter_process_unroutable:
  assumes "map_of (channels r) c = None \<or>
           (\<exists>ch. map_of (channels r) c = Some ch \<and> map_of (subscribers ch) e = None)"
  shows "ChannelRouter_process E r c e d = (Inr None, r, []) \<and>
         process_repeat n E r c e d = (replicate n (Inr None), r, [])"
proof -
  have one: "ChannelRouter_process E r c e d = (Inr None, r, [])"
    using assms
    by (auto simp add: ChannelRouter_process_def Channel_process_def AList.update_triv)
  have "process_repeat n E r c e d = (replicate n (Inr None), r, [])"
    by (induction n) (simp_all add: one)
  with one show ?thesis by simp
qed

theorem ChannelRouter_process_unroutable_witness:
  "map_of (channels chat_router) ''news'' = None \<and>
   ChannelRouter_process demo_engine chat_router ''news'' ''message'' [(''text'', ''hi'')] =
     (Inr None, chat_router, []) \<and>
   process_repeat 3 demo_engine chat_router ''news'' ''message'' [(''text'', ''hi'')] =
     ([Inr None, Inr None, Inr None], chat_router, []) \<and>
   map_of (channels chat_router) ''chat'' = Some chat_channel \<and>
   map_of (subscribers chat_channel) ''unknown'' = None \<and>
   ChannelRouter_process demo_engine chat_router ''chat'' ''unknown'' [] =
     (Inr None, chat_router, []) \<and>
   process_repeat 3 demo_engine chat_router ''chat'' ''unknown'' [] =
     ([Inr None, Inr None, Inr None], chat_router, [])"
proof -
  have no_channel: "map_of (channels chat_router) ''news'' = None"
    by (simp add: chat_router_def)
  have ch: "map_of (channels chat_router) ''chat'' = Some chat_channel"
    by (simp add: chat_router_def)
  have no_event: "map_of (subscribers chat_channel) ''unknown'' = None"
    by (simp add: chat_channel_def)
  have hyp1: "map_of (channels chat_router) ''news'' = None \<or>
        (\<exists>ch. map_of (channels chat_router) ''news'' = Some ch \<and>
              map_of (subscribers ch) ''message'' = None)"
    using no_channel by simp
  have hyp2: "map_of (channels chat_router) ''chat'' = None \<or>
        (\<exists>ch. map_of (channels chat_router) ''chat'' = Some ch \<and>
              map_of (subscribers ch) ''unknown'' = None)"
    using ch no_event by simp
  have three: "replicate 3 x = [x, x, x]" for x :: "string exn + string option"
    by (simp add: numeral_3_eq_3)
  show ?thesis
    using ChannelRouter_process_unroutable
            [OF hyp1, of demo_engine "[(''text'', ''hi'')]" 3]
      ChannelRouter_process_unroutable [OF hyp2, of demo_engine "[]" 3]
      no_channel ch no_event three
    by simp
qed

text \<open>
  C8. When \<^verbatim>\<open>Event.parse_raw\<close> raises on the raw message, \<^verbatim>\<open>Application.process\<close>
  raises that exception, nothing is dispatched (no effect, whatever the router holds)
  and the application is unchanged. When it returns an envelope, the result and the
  effects of \<^verbatim>\<open>Application.process\<close> are those of \<^verbatim>\<open>ChannelRouter.process\<close> on
  the application's router with the channel, event and data of the envelope.
\<close>

theorem Application_process_decode:
  "(\<forall>err. parse_raw E message = Inl err \<longrightarrow>
      Application_process E app message = (Inl (Propagated err), app, [])) \<and>
   (\<forall>ev. parse_raw E message = Inr ev \<longrightarrow>
      Application_process E app message =
        (fst (ChannelRouter_process E (router app) (channel ev) (event ev) (data ev)),
         app,
         snd (snd (ChannelRouter_process E (router app) (channel ev) (event ev)
                     (data ev)))))"
proof -
  have "Application_process E app message =
        (fst (ChannelRouter_process E (router app) (channel ev) (event ev) (data ev)),
         app,
         snd (snd (ChannelRouter_process E (router app) (channel ev) (event ev)
                     (data ev))))"
    if dec: "parse_raw E message = Inr ev" for ev
  proof -
    obtain res r' tr where
      p: "ChannelRouter_process E (router app) (channel ev) (event ev) (data ev) =
            (res, r', tr)"
      by (cases "ChannelRouter_process E (router app) (channel ev) (event ev) (data ev)")
        auto
    with ChannelRouter_process_state [of E "router app" "channel ev" "event ev" "data ev"]
    have "r' = router app" by simp
    with dec p show ?thesis by (simp add: Application_process_def)
  qed
  then show ?thesis by (simp add: Application_process_def)
qed

theorem Application_process_decode_witness:
  "parse_raw demo_engine ''garbage'' = Inl ''invalid envelope'' \<and>
   Application_process demo_engine chat_app ''garbage'' =
     (Inl (Propagated ''invalid envelope''), chat_app, []) \<and>
   parse_raw demo_engine ''hi'' =
     Inr \<lparr>channel = ''chat'', event = ''message'', data = [(''text'', ''hi'')]\<rparr> \<and>
   Application_process demo_engine chat_app ''hi'' =
     (Inr (Some ''hi''), chat_app, [Call on_message [(''text'', ''hi'')]])"
proof -
  have bad: "parse_raw demo_engine ''garbage'' = Inl ''invalid envelope''"
    by (simp add: demo_engine_def demo_messages_def)
  have good: "parse_raw demo_engine ''hi'' =
     Inr \<lparr>channel = ''chat'', event = ''message'', data = [(''text'', ''hi'')]\<rparr>"
    by (simp add: demo_engine_def demo_messages_def)
  have dispatch:
    "ChannelRouter_process demo_engine (router chat_app) ''chat'' ''message''
       [(''text'', ''hi'')] =
     (Inr (Some ''hi''), chat_router, [Call on_message [(''text'', ''hi'')]])"
    by (simp add: ChannelRouter_process_def Channel_process_def Subscription_process_def
        demo_defs)
  show ?thesis
    using Application_process_decode [of demo_engine "''garbage''" chat_app]
      Application_process_decode [of demo_engine "''hi''" chat_app]
      bad good dispatch
    by simp
qed

subsection \<open>Schema export\<close>

text \<open>
  The two loops of \<^verbatim>\<open>Channel.schema\<close> over a dictionary: the first assignment under
  a key creates the inner dictionary, the later ones extend it.
\<close>

lemma defaultdict_fold_present:
  assumes "distinct (map fst xs)"
    and "fst ` set xs \<inter> fst ` set inner = {}"
    and "map_of out k = Some inner"
  shows "fold (\<lambda>(e, x). defaultdict_set k e (g x)) xs out =
           AList.update k (inner @ map (\<lambda>(e, x). (e, g x)) xs) out"
  using assms
proof (induction xs arbitrary: inner out)
  case Nil
  then show ?case by (simp add: AList.update_triv)
next
  case (Cons a xs)
  obtain e x where a: "a = (e, x)" by (cases a)
  have absent: "map_of inner e = None"
    using Cons.prems(2) a by (auto simp: map_of_eq_None_iff)
  define inner' where "inner' = inner @ [(e, g x)]"
  define out' where "out' = AList.update k inner' out"
  have step: "defaultdict_set k e (g x) out = out'"
    using Cons.prems(3) absent
    by (simp add: defaultdict_set_def out'_def inner'_def update_absent)
  have d: "distinct (map fst xs)" using Cons.prems(1) by simp
  have disj: "fst ` set xs \<inter> fst ` set inner' = {}"
    using Cons.prems(1,2) a by (auto simp: inner'_def)
  have look: "map_of out' k = Some inner'"
    by (simp add: out'_def AList.update_conv')
  have "fold (\<lambda>(e, x). defaultdict_set k e (g x)) (a # xs) out =
        fold (\<lambda>(e, x). defaultdict_set k e (g x)) xs out'"
    using a step by simp
  also have "\<dots> = AList.update k (inner' @ map (\<lambda>(e, x). (e, g x)) xs) out'"
    by (rule Cons.IH [OF d disj look])
  also have "\<dots> = AList.update k (inner @ map (\<lambda>(e, x). (e, g x)) (a # xs)) out"
    by (simp add: out'_def inner'_def a)
  finally show ?case .
qed

lemma defaultdict_fold_absent:
  assumes "distinct (map fst xs)" and "map_of out k = None"
  shows "fold (\<lambda>(e, x). defaultdict_set k e (g x)) xs out =
           (if xs = [] then out else out @ [(k, map (\<lambda>(e, x). (e, g x)) xs)])"
proof (cases xs)
  case Nil
  then show ?thesis by simp
next
  case (Cons a ys)
  obtain e x where a: "a = (e, x)" by (cases a)
  define out' where "out' = out @ [(k, [(e, g x)])]"
  have step: "defaultdict_set k e (g x) out = out'"
    using assms(2) by (simp add: defaultdict_set_def out'_def update_absent)
  have d: "distinct (map fst ys)" using assms(1) Cons by simp
  have disj: "fst ` set ys \<inter> fst ` set [(e, g x)] = {}"
    using assms(1) Cons a by auto
  have look: "map_of out' k = Some [(e, g x)]"
    using assms(2) by (simp add: out'_def map_add_def map_of_append)
  have "fold (\<lambda>(e, x). defaultdict_set k e (g x)) xs out =
        fold (\<lambda>(e, x). defaultdict_set k e (g x)) ys out'"
    using Cons a step by simp
  also have "\<dots> = AList.update k ([(e, g x)] @ map (\<lambda>(e, x). (e, g x)) ys) out'"
    by (rule defaultdict_fold_present [OF d disj look])
  also have "\<dots> = out @ [(k, map (\<lambda>(e, x). (e, g x)) xs)]"
    using assms(2) Cons a by (simp add: out'_def update_snoc_same)
  finally show ?thesis using Cons by simp
qed

lemma Channel_schema_wf:
  assumes "Channel_wf ch"
  shows "Channel_schema E ch =
           Dict ((if subscribers ch = [] then []
                  else [(''publish'',
                         Dict (map (\<lambda>(e, sub).
                                 (e, Dict [(''payload'',
                                      Schema (model_schema E (Subscription.model sub)))]))
                                 (subscribers ch)))]) @
                 (if publishers ch = [] then []
                  else [(''subscribe'',
                         Dict (map (\<lambda>(e, pub).
                                 (e, Dict [(''payload'',
                                      Schema (model_schema E (Publish.model pub)))]))
                                 (publishers ch)))]))"
proof -
  have ds: "distinct (map fst (subscribers ch))" and dp: "distinct (map fst (publishers ch))"
    using assms by (simp_all add: Channel_wf_def dict_wf_def)
  define pubs where
    "pubs = (if subscribers ch = [] then []
             else [(''publish'', map (\<lambda>(e, s). (e, Subscription_schema E s))
                                   (subscribers ch))])"
  have o1: "fold (\<lambda>(e, s). defaultdict_set ''publish'' e (Subscription_schema E s))
              (subscribers ch) [] = pubs"
    using defaultdict_fold_absent [OF ds, of "[]" "''publish''" "Subscription_schema E"]
    by (simp add: pubs_def)
  have none: "map_of pubs ''subscribe'' = None"
    by (simp add: pubs_def)
  have o2: "fold (\<lambda>(e, p). defaultdict_set ''subscribe'' e (Publish_schema E p))
              (publishers ch) pubs =
            (if publishers ch = [] then pubs
             else pubs @ [(''subscribe'', map (\<lambda>(e, p). (e, Publish_schema E p))
                                            (publishers ch))])"
    by (rule defaultdict_fold_absent [OF dp none])
  have "Channel_schema E ch =
          Dict (map (\<lambda>(k, d). (k, Dict d))
                  (fold (\<lambda>(e, p). defaultdict_set ''subscribe'' e (Publish_schema E p))
                     (publishers ch) pubs))"
    by (simp add: Channel_schema_def Let_def o1)
  also have "\<dots> =
          Dict (map (\<lambda>(k, d). (k, Dict d))
                  (if publishers ch = [] then pubs
                   else pubs @ [(''subscribe'', map (\<lambda>(e, p). (e, Publish_schema E p))
                                            (publishers ch))]))"
    by (simp only: o2)
  finally show ?thesis
    by (simp add: pubs_def Subscription_schema_def Publish_schema_def)
qed

lemma update_fold_fresh:
  assumes "distinct (map fst xs)" and "fst ` set xs \<inter> fst ` set acc = {}"
  shows "fold (\<lambda>(n, c). AList.update n (g c)) xs acc = acc @ map (\<lambda>(n, c). (n, g c)) xs"
  using assms
proof (induction xs arbitrary: acc)
  case Nil
  then show ?case by simp
next
  case (Cons a xs)
  obtain n c where a: "a = (n, c)" by (cases a)
  have absent: "map_of acc n = None"
    using Cons.prems(2) a by (auto simp: map_of_eq_None_iff)
  have d: "distinct (map fst xs)" using Cons.prems(1) by simp
  have disj: "fst ` set xs \<inter> fst ` set (acc @ [(n, g c)]) = {}"
    using Cons.prems a by auto
  show ?case
    using Cons.IH [OF d disj] a absent by (simp add: update_absent)
qed

lemma ChannelRouter_schema_wf:
  assumes "ChannelRouter_wf r"
  shows "ChannelRouter_schema E r = map (\<lambda>(n, ch). (n, Channel_schema E ch)) (channels r)"
proof -
  have "distinct (map fst (channels r))"
    using assms by (simp add: ChannelRouter_wf_def dict_wf_def)
  from update_fold_fresh [OF this, of "[]" "Channel_schema E"]
  show ?thesis by (simp add: ChannelRouter_schema_def)
qed

text \<open>
  C6, as the code has it. On registries that are dictionaries (distinct keys),
  \<^verbatim>\<open>Application.schema\<close> returns a dictionary with the key \<^verbatim>\<open>asyncapi\<close>, bound to
  the string 2.2.0, and the key \<^verbatim>\<open>channels\<close>, bound to a dictionary with one entry
  for each channel, in the router's order. The entry of a channel has the key
  \<^verbatim>\<open>publish\<close> exactly when the channel has a subscription, bound to the dictionary
  from each subscribed event name to the payload wrapper of its model's schema, and the
  key \<^verbatim>\<open>subscribe\<close> exactly when the channel has a publish descriptor, bound to the
  dictionary from each such event name to the payload wrapper of its model's schema; a
  key whose registry is empty is absent.
\<close>

theorem Application_schema_document:
  assumes "ChannelRouter_wf (router app)"
  shows "Application_schema E app =
    Dict [(''asyncapi'', Str ''2.2.0''),
          (''channels'',
           Dict (map (\<lambda>(n, ch).
                   (n, Dict ((if subscribers ch = [] then []
                              else [(''publish'',
                                     Dict (map (\<lambda>(e, sub).
                                             (e, Dict [(''payload'',
                                                  Schema (model_schema E
                                                    (Subscription.model sub)))]))
                                           (subscribers ch)))]) @
                             (if publishers ch = [] then []
                              else [(''subscribe'',
                                     Dict (map (\<lambda>(e, pub).
                                             (e, Dict [(''payload'',
                                                  Schema (model_schema E
                                                    (Publish.model pub)))]))
                                           (publishers ch)))]))))
                 (channels (router app))))]"
proof -
  have each: "Channel_wf ch" if "(n, ch) \<in> set (channels (router app))" for n ch
    using assms that by (auto simp: ChannelRouter_wf_def list_all_iff)
  have "ChannelRouter_schema E (router app) =
          map (\<lambda>(n, ch). (n, Channel_schema E ch)) (channels (router app))"
    by (rule ChannelRouter_schema_wf [OF assms])
  also have "\<dots> =
        map (\<lambda>(n, ch).
                   (n, Dict ((if subscribers ch = [] then []
                              else [(''publish'',
                                     Dict (map (\<lambda>(e, sub).
                                             (e, Dict [(''payload'',
                                                  Schema (model_schema E
                                                    (Subscription.model sub)))]))
                                           (subscribers ch)))]) @
                             (if publishers ch = [] then []
                              else [(''subscribe'',
                                     Dict (map (\<lambda>(e, pub).
                                             (e, Dict [(''payload'',
                                                  Schema (model_schema E
                                                    (Publish.model pub)))]))
                                           (publishers ch)))]))))
                 (channels (router app))"
    by (rule map_cong [OF refl]) (auto simp: Channel_schema_wf [OF each])
  finally have chans: "ChannelRouter_schema E (router app) = \<dots>" .
  show ?thesis
    unfolding Application_schema_def chans by simp
qed

theorem Application_schema_document_witness:
  "ChannelRouter_wf (router orders_app) \<and>
   Application_schema demo_engine orders_app =
     Dict [(''asyncapi'', Str ''2.2.0''),
           (''channels'',
            Dict [(''orders'',
                   Dict [(''publish'',
                          Dict [(''created'', Dict [(''payload'', Schema [''id''])])]),
                         (''subscribe'',
                          Dict [(''shipped'',
                                 Dict [(''payload'', Schema [''trackingId''])])])])])] \<and>
   ChannelRouter_wf (router chat_app) \<and>
   Application_schema demo_engine chat_app =
     Dict [(''asyncapi'', Str ''2.2.0''),
           (''channels'',
            Dict [(''chat'',
                   Dict [(''publish'',
                          Dict [(''message'', Dict [(''payload'', Schema [''text''])])])])])]"
proof -
  have wf1: "ChannelRouter_wf (router orders_app)"
    by (simp add: ChannelRouter_wf_def Channel_wf_def dict_wf_def orders_app_def
        orders_channel_def)
  have wf2: "ChannelRouter_wf (router chat_app)"
    by (simp add: ChannelRouter_wf_def Channel_wf_def dict_wf_def chat_app_def
        chat_router_def chat_channel_def)
  show ?thesis
    using Application_schema_document [OF wf1, of demo_engine]
      Application_schema_document [OF wf2, of demo_engine] wf1 wf2
    by (simp add: orders_app_def orders_channel_def chat_app_def chat_router_def
        chat_channel_def chat_subscription_def demo_engine_def)
qed

text \<open>
  C6, as the claim has it. The two keys for every channel fail on the application with one handler
  registered for the event \<^verbatim>\<open>message\<close> of the channel \<^verbatim>\<open>chat\<close>: the exported
  document has the channel, and the channel's entry has no key \<^verbatim>\<open>subscribe\<close>.
\<close>

theorem Application_schema_two_keys_counterexample:
  "fst (snd (Application_register_subscription Application_init ''chat'' ''message''
               on_message)) = chat_app \<and>
   doc_path (Application_schema demo_engine chat_app) [''channels'', ''chat''] \<noteq> None \<and>
   doc_path (Application_schema demo_engine chat_app) [''channels'', ''chat'', ''subscribe'']
     = None"
  by (simp add: Application_schema_def ChannelRouter_schema_def Channel_schema_def
      defaultdict_set_def Subscription_schema_def Publish_schema_def demo_defs
      Application_register_subscription_def ChannelRouter_register_subscription_def
      Channel_register_subscription_def Subscription_init_def Let_def
      Application_init_def ChannelRouter_init_def Channel_init_def)

subsection \<open>What the application's methods reach\<close>

lemma Channel_register_subscription_publishers:
  "publishers (fst (snd (Channel_register_subscription ch e f))) = publishers ch"
  by (simp add: Channel_register_subscription_def Let_def split: sum.splits)

lemma ChannelRouter_register_subscription_no_publish:
  assumes "no_publish r"
  shows "no_publish (fst (snd (ChannelRouter_register_subscription r c e f)))"
proof -
  define ch0 where
    "ch0 = (case map_of (channels r) c of None \<Rightarrow> Channel_init | Some ch \<Rightarrow> ch)"
  define ch' where "ch' = fst (snd (Channel_register_subscription ch0 e f))"
  have old: "publishers ch = []" if "(n, ch) \<in> set (channels r)" for n ch
    using assms that by (auto simp: no_publish_def list_all_iff)
  have p0: "publishers ch0 = []"
  proof (cases "map_of (channels r) c")
    case None
    then show ?thesis by (simp add: ch0_def Channel_init_def)
  next
    case (Some ch)
    then have "(c, ch) \<in> set (channels r)" by (rule map_of_SomeD)
    with Some show ?thesis by (simp add: ch0_def old)
  qed
  have p': "publishers ch' = []"
    using p0 by (simp add: ch'_def Channel_register_subscription_publishers)
  have chans: "channels (fst (snd (ChannelRouter_register_subscription r c e f))) =
          AList.update c ch' (channels r)"
    by (cases "map_of (channels r) c")
      (auto simp: ChannelRouter_register_subscription_def Let_def AList.update_conv'
        ch0_def ch'_def split: prod.splits)
  have "publishers ch = []" if "(n, ch) \<in> set (AList.update c ch' (channels r))" for n ch
    using update_entries [OF that] p' old by auto
  then show ?thesis
    by (auto simp: no_publish_def list_all_iff chans)
qed

lemma Application_register_subscription_no_publish:
  assumes "no_publish (router app)"
  shows "no_publish (router (fst (snd (Application_register_subscription app c n f))))"
proof -
  obtain res r' ws where
    reg: "ChannelRouter_register_subscription (router app) c n f = (res, r', ws)"
    by (cases "ChannelRouter_register_subscription (router app) c n f") auto
  with ChannelRouter_register_subscription_no_publish [OF assms, of c n f]
  have "no_publish r'" by simp
  with reg show ?thesis by (simp add: Application_register_subscription_def)
qed

lemma Application_subscribe_state:
  "fst (snd (Application_subscribe app c n f)) =
   fst (snd (Application_register_subscription app c n f))"
  by (simp add: Application_subscribe_def split: prod.splits sum.splits)

lemma Application_call_no_publish:
  assumes "no_publish (router app)"
  shows "no_publish (router (Application_call E app a))"
proof (cases a)
  case (RegisterSubscription c n f)
  then show ?thesis
    using Application_register_subscription_no_publish [OF assms] by simp
next
  case (Subscribe c n f)
  then show ?thesis
    using Application_register_subscription_no_publish [OF assms]
    by (simp add: Application_subscribe_state)
next
  case (ProcessMessage m)
  then show ?thesis using assms by (simp add: Application_process_state)
next
  case SchemaExport
  then show ?thesis using assms by simp
qed

lemma fold_call_no_publish:
  "no_publish (router app) \<Longrightarrow>
   no_publish (router (fold (\<lambda>c app. Application_call E app c) calls app))"
  by (induction calls arbitrary: app) (simp_all add: Application_call_no_publish)

lemma Application_run_no_publish: "no_publish (router (Application_run E calls))"
  unfolding Application_run_def
  by (rule fold_call_no_publish)
    (simp add: no_publish_def Application_init_def ChannelRouter_init_def)

text \<open>
  C7, as the code has it. \<^verbatim>\<open>Application\<close> and \<^verbatim>\<open>ChannelRouter\<close> define
  \<^verbatim>\<open>register_subscription\<close> and its decorator only: whatever calls are made on a new
  application, no channel of its router holds a publish descriptor. Registering a
  publish descriptor is a method of a \<^verbatim>\<open>Channel\<close>: \<^verbatim>\<open>Channel.register_publish\<close>
  returns, binds the event name to the descriptor of the shape in that channel and
  leaves the channel's subscriptions as they were.
\<close>

theorem Application_registers_no_publish:
  fixes E :: "('m, 'p, 'v, 'x, 's) engine" and ch0 :: "('m, 'v, 'x, 'r) Channel"
  shows
  "(\<forall>calls :: ('m, 'v, 'x, 'r) api_call list.
      list_all (\<lambda>(name, channel). publishers channel = [])
        (channels (router (Application_run E calls)))) \<and>
   fst (Channel_register_publish ch0 e m) = Inr () \<and>
   map_of (publishers (fst (snd (Channel_register_publish ch0 e m)))) e
     = Some \<lparr>Publish.model = m\<rparr> \<and>
   subscribers (fst (snd (Channel_register_publish ch0 e m))) = subscribers ch0"
proof -
  have "list_all (\<lambda>(name, channel). publishers channel = [])
          (channels (router (Application_run E calls)))"
    for calls :: "('m, 'v, 'x, 'r) api_call list"
    using Application_run_no_publish [of E calls] by (simp add: no_publish_def)
  then show ?thesis
    by (simp add: Channel_register_publish_def Let_def Publish_init_def AList.update_conv')
qed

theorem Application_registers_no_publish_witness:
  "Application_run demo_engine
     [RegisterSubscription ''chat'' ''message'' on_message, ProcessMessage ''hi'',
      SchemaExport] = chat_app \<and>
   list_all (\<lambda>(name, channel). publishers channel = []) (channels (router chat_app)) \<and>
   map_of (publishers (fst (snd (Channel_register_publish chat_channel ''shipped''
                                   [''trackingId''])))) ''shipped''
     = Some \<lparr>Publish.model = [''trackingId'']\<rparr>"
proof -
  have reg: "Application_register_subscription Application_init ''chat'' ''message''
               on_message = (Inr (), chat_app, [])"
    by (simp add: Application_register_subscription_def
        ChannelRouter_register_subscription_def Channel_register_subscription_def
        Subscription_init_def Let_def Application_init_def ChannelRouter_init_def
        Channel_init_def chat_app_def chat_router_def chat_channel_def
        chat_subscription_def on_message_def)
  have run: "Application_run demo_engine
     [RegisterSubscription ''chat'' ''message'' on_message, ProcessMessage ''hi'',
      SchemaExport] = chat_app"
    by (simp add: Application_run_def reg Application_process_state)
  note inst = Application_registers_no_publish
                [of demo_engine chat_channel "''shipped''" "[''trackingId'']"]
  from inst have
    "list_all (\<lambda>(name, channel). publishers channel = [])
       (channels (router (Application_run demo_engine
          [RegisterSubscription ''chat'' ''message'' on_message, ProcessMessage ''hi'',
           SchemaExport])))"
    by blast
  then have none: "list_all (\<lambda>(name, channel). publishers channel = [])
                     (channels (router chat_app))"
    by (simp only: run)
  from inst have stored:
    "map_of (publishers (fst (snd (Channel_register_publish chat_channel ''shipped''
                                     [''trackingId''])))) ''shipped''
       = Some \<lparr>Publish.model = [''trackingId'']\<rparr>"
    by blast
  from run none stored show ?thesis by blast
qed

text \<open>
  C7, as the claim has it. The operation is missing: no sequence of calls on a new application leaves
  the channel \<^verbatim>\<open>orders\<close> with a publish descriptor for the event \<^verbatim>\<open>shipped\<close>.
\<close>

theorem Application_register_publish_counterexample:
  "\<not> (\<exists>(calls :: (string list, fields, string, string) api_call list) ch.
        map_of (channels (router (Application_run demo_engine calls))) ''orders'' = Some ch \<and>
        map_of (publishers ch) ''shipped'' = Some \<lparr>Publish.model = [''trackingId'']\<rparr>)"
proof
  assume "\<exists>(calls :: (string list, fields, string, string) api_call list) ch.
        map_of (channels (router (Application_run demo_engine calls))) ''orders'' = Some ch \<and>
        map_of (publishers ch) ''shipped'' = Some \<lparr>Publish.model = [''trackingId'']\<rparr>"
  then obtain calls :: "(string list, fields, string, string) api_call list" and ch where
    ch: "map_of (channels (router (Application_run demo_engine calls))) ''orders'' = Some ch"
    and pub: "map_of (publishers ch) ''shipped'' = Some \<lparr>Publish.model = [''trackingId'']\<rparr>"
    by blast
  from ch have "(''orders'', ch) \<in> set (channels (router (Application_run demo_engine calls)))"
    by (rule map_of_SomeD)
  with Application_run_no_publish [of demo_engine calls]
  have "publishers ch = []" by (auto simp: no_publish_def list_all_iff)
  with pub show False by simp
qed

end
